theory Spec2Isabelle
  imports Complex_Main
begin

section \<open>The colour game of \<open>src/components/ColorGame.tsx\<close>\<close>

text \<open>
  The component keeps five pieces of React state (\<open>gameState\<close>, \<open>colorState\<close>, \<open>stats\<close>,
  \<open>timeLeft\<close>, \<open>gridSize\<close>) and changes them in four handlers: \<open>generateLevel\<close>,
  \<open>startGame\<close>, the one-second timer with \<open>endGame\<close>, and \<open>handleBlockClick\<close>. Each handler
  is modelled as a function from the state of the render it was created in to the state of
  the next render. Events are dispatched one at a time, with a render in between, so the
  values a handler's closure holds are the fields of the state it is applied to.

  JavaScript numbers are IEEE 754 doubles. Levels, scores, seconds, timestamps and tile
  indices are whole numbers far below \<open>2^53\<close>, where the arithmetic of doubles is exact:
  they are \<open>int\<close>. The expressions of \<open>generateLevel\<close> that leave the integers are
  computed as the source computes them, every operation rounded to the nearest double
  (\<open>fl\<close> below). The results of \<open>Math.random()\<close> and \<open>Date.now()\<close> are arguments of the
  handler that reads them.
\<close>

subsection \<open>Data\<close>

datatype phase = Start | Playing | Gameover

text \<open>
  A colour is the CSS string \<open>hsl(h, s%, l%)\<close> that the template literal prints; it is kept as
  the three numbers printed into it.
\<close>

record hsl =
  hue :: int
  saturation :: int
  lightness :: real

record ColorState =
  baseColor :: hsl
  diffColor :: hsl
  diffIndex :: int
  delta :: real

record GameStats =
  score :: int
  startTime :: int
  endTime :: int
  level :: int

record session =
  gameState :: phase
  colorState :: "ColorState option"
  stats :: GameStats
  timeLeft :: int
  gridSize :: int

subsection \<open>Doubles\<close>

text \<open>
  A double is kept as the real number it stands for. \<open>fl x\<close> is the double nearest to the
  real \<open>x\<close>, ties going to the even significand: \<open>binexp x\<close> is the binary exponent of a
  positive \<open>x\<close> (\<open>2^e \<le> x < 2^(e+1)\<close>), \<open>expo\<close> stops it at \<open>-1022\<close> (below, doubles are
  subnormal and keep the spacing \<open>2^-1074\<close>), and the significand has 53 bits, so doubles
  with exponent \<open>e\<close> are the multiples of \<open>2^(e-52)\<close>. Overflow to \<open>Infinity\<close> is left out:
  it starts at \<open>2^1024\<close>, and no number of this program comes near it.
\<close>

fun ilog2 :: "nat \<Rightarrow> nat" where
  "ilog2 n = (if n < 2 then 0 else Suc (ilog2 (n div 2)))"

declare ilog2.simps [simp del]

definition binexp :: "real \<Rightarrow> int" where
  "binexp x = (if 1 \<le> x then int (ilog2 (nat \<lfloor>x\<rfloor>))
               else - int (ilog2 (nat (\<lceil>1 / x\<rceil> - 1))) - 1)"

definition expo :: "real \<Rightarrow> int" where
  "expo x = max (binexp \<bar>x\<bar>) (- 1022)"

text \<open>Rounding to the nearest integer, a tie to the even one.\<close>

definition rne :: "real \<Rightarrow> int" where
  "rne x = (let f = \<lfloor>x\<rfloor>; r = x - real_of_int f
            in if r < 1 / 2 then f else if 1 / 2 < r then f + 1
               else if even f then f else f + 1)"

definition fl :: "real \<Rightarrow> real" where
  "fl x = (if x = 0 then 0
           else let u = 2 powi (expo x - 52)
                in real_of_int (rne (x / u)) * u)"

subsection \<open>Random draws\<close>

text \<open>
  The five calls of \<open>Math.random()\<close> in \<open>generateLevel\<close>, in the order of the source:
  hue, saturation, lightness, direction, index. Each is a double in \<open>[0, 1)\<close>.
\<close>

record draws =
  rHue :: real
  rSat :: real
  rLight :: real
  rDir :: real
  rIdx :: real

definition unit_draw :: "real \<Rightarrow> bool" where
  "unit_draw r \<longleftrightarrow> fl r = r \<and> 0 \<le> r \<and> r < 1"

definition valid_draws :: "draws \<Rightarrow> bool" where
  "valid_draws d \<longleftrightarrow>
     unit_draw (rHue d) \<and> unit_draw (rSat d) \<and> unit_draw (rLight d) \<and>
     unit_draw (rDir d) \<and> unit_draw (rIdx d)"

text \<open>The value of \<open>useState\<close> at the first render.\<close>

definition initial :: session where
  "initial = \<lparr> gameState = Start, colorState = None,
               stats = \<lparr> score = 0, startTime = 0, endTime = 0, level = 1 \<rparr>,
               timeLeft = 45, gridSize = 5 \<rparr>"

subsection \<open>The level generator\<close>

text \<open>
  \<open>const baseDelta = Math.max(1, 15 - level * 0.8)\<close>. The literal \<open>0.8\<close> is the double
  nearest to 8/10; the product and the difference are rounded.
\<close>

definition baseDelta :: "int \<Rightarrow> real" where
  "baseDelta lv = max 1 (fl (15 - fl (real_of_int lv * fl 0.8)))"

text \<open>\<open>const newGridSize = Math.min(9, Math.floor(5 + (level - 1) / 5))\<close>\<close>

definition newGridSize :: "int \<Rightarrow> int" where
  "newGridSize lv = min 9 \<lfloor>fl (5 + fl (fl (real_of_int lv - 1) / 5))\<rfloor>"

text \<open>
  \<open>generateLevel\<close> is a \<open>useCallback\<close> over \<open>[gridSize]\<close>: the \<open>gridSize\<close> it multiplies for
  \<open>diffIndex\<close> is the state variable of the render that created the callback, which
  \<open>setGridSize(newGridSize)\<close> does not change. In the model that is \<open>gridSize s\<close> of the
  state the function is applied to.
\<close>

definition generateLevel :: "int \<Rightarrow> draws \<Rightarrow> session \<Rightarrow> session" where
  "generateLevel lv d s =
     (let h = \<lfloor>fl (rHue d * 360)\<rfloor>;
          sat = \<lfloor>fl (rSat d * 40)\<rfloor> + 60;
          l = \<lfloor>fl (rLight d * 40)\<rfloor> + 30;
          isLighter = (rDir d > 0.5);
          lDiff = (if isLighter then baseDelta lv else - baseDelta lv);
          base = \<lparr> hue = h, saturation = sat, lightness = real_of_int l \<rparr>;
          diff = \<lparr> hue = h, saturation = sat,
                   lightness = min 100 (max 0 (fl (real_of_int l + lDiff))) \<rparr>;
          idx = \<lfloor>fl (rIdx d * real_of_int (gridSize s * gridSize s))\<rfloor>
      in s \<lparr> gridSize := newGridSize lv,
             colorState := Some \<lparr> baseColor = base, diffColor = diff,
                                  diffIndex = idx, delta = baseDelta lv \<rparr> \<rparr>)"

subsection \<open>The state machine\<close>

definition startGame :: "int \<Rightarrow> draws \<Rightarrow> session \<Rightarrow> session" where
  "startGame now d s =
     generateLevel 1 d
       (s \<lparr> stats := \<lparr> score = 0, startTime = now, endTime = 0, level = 1 \<rparr>,
            timeLeft := 45,
            gameState := Playing \<rparr>)"

definition endGame :: "int \<Rightarrow> session \<Rightarrow> session" where
  "endGame now s = s \<lparr> gameState := Gameover, stats := (stats s) \<lparr> endTime := now \<rparr> \<rparr>"

text \<open>
  The timer effect returns at once unless \<open>gameState\<close> is \<open>playing\<close>, and its cleanup clears
  the interval when \<open>gameState\<close> changes: a tick reaches the state only while playing.
\<close>

definition tick :: "int \<Rightarrow> session \<Rightarrow> session" where
  "tick now s =
     (if gameState s \<noteq> Playing then s
      else if timeLeft s \<le> 1 then (endGame now s) \<lparr> timeLeft := 0 \<rparr>
      else s \<lparr> timeLeft := timeLeft s - 1 \<rparr>)"

text \<open>
  \<open>if (gameState !== 'playing' || !colorState) return;\<close> comes first. The shake of a wrongly
  clicked tile is a CSS class on the DOM element and no part of the state.
\<close>

definition handleBlockClick :: "int \<Rightarrow> draws \<Rightarrow> session \<Rightarrow> session" where
  "handleBlockClick index d s =
     (if gameState s \<noteq> Playing then s
      else case colorState s of
        None \<Rightarrow> s
      | Some cs \<Rightarrow>
          if index = diffIndex cs then
            (let newLevel = level (stats s) + 1
             in generateLevel newLevel d
                  (s \<lparr> stats := (stats s) \<lparr> score := score (stats s) + 1, level := newLevel \<rparr>,
                       timeLeft := min 60 (timeLeft s + 1) \<rparr>))
          else s \<lparr> timeLeft := max 0 (timeLeft s - 5) \<rparr>)"

subsection \<open>The grid that is rendered\<close>

text \<open>
  While playing with a colour state, the component renders \<open>gridSize * gridSize\<close> buttons,
  button \<open>i\<close> painted \<open>diffColor\<close> when \<open>i === colorState.diffIndex\<close> and \<open>baseColor\<close>
  otherwise.
\<close>

definition tiles :: "session \<Rightarrow> hsl list" where
  "tiles s =
     (case colorState s of
        None \<Rightarrow> []
      | Some cs \<Rightarrow>
          if gameState s = Playing
          then map (\<lambda>i. if i = diffIndex cs then diffColor cs else baseColor cs)
                 [0 .. gridSize s * gridSize s - 1]
          else [])"

subsection \<open>Sessions\<close>

datatype event = StartGame int draws | BlockClick int draws | Tick int

fun apply_event :: "session \<Rightarrow> event \<Rightarrow> session" where
  "apply_event s (StartGame now d) = startGame now d s"
| "apply_event s (BlockClick i d) = handleBlockClick i d s"
| "apply_event s (Tick now) = tick now s"

definition run :: "event list \<Rightarrow> session" where
  "run es = foldl apply_event initial es"

text \<open>The states a session passes through once \<open>startGame\<close> has been called.\<close>

inductive started :: "session \<Rightarrow> bool" where
  first: "started (startGame now d (run es))"
| step: "started s \<Longrightarrow> started (apply_event s e)"

subsection \<open>Sample inputs\<close>

text \<open>
  Three sets of random draws. With \<open>low_draws\<close> the level has hue 0, saturation 60,
  lightness 30, a darker target, and the target at index 0. With \<open>high_draws\<close> the index
  draw is the double written \<open>0.99\<close>. In \<open>top_draws\<close> every draw is the largest double below
  1, \<open>1 - 2^-53\<close>.
\<close>

definition low_draws :: draws where
  "low_draws = \<lparr> rHue = 0, rSat = 0, rLight = 0, rDir = 0, rIdx = 0 \<rparr>"

definition high_draws :: draws where
  "high_draws = \<lparr> rHue = 1 / 2, rSat = 1 / 2, rLight = 1 / 2, rDir = 3 / 4,
                  rIdx = fl (99 / 100) \<rparr>"

definition top_draws :: draws where
  "top_draws = \<lparr> rHue = 1 - 1 / 2 ^ 53, rSat = 1 - 1 / 2 ^ 53, rLight = 1 - 1 / 2 ^ 53,
                 rDir = 1 - 1 / 2 ^ 53, rIdx = 1 - 1 / 2 ^ 53 \<rparr>"

text \<open>
  A whole game: start, five correct picks (the target is tile 0 each time) that reach level 6
  and a 6 by 6 grid, ten wrong picks on tile 1 that take the 50 seconds left down to 0, and
  the clock tick that ends the game.
\<close>

definition level6_game :: "event list" where
  "level6_game =
     StartGame 1000 low_draws # replicate 5 (BlockClick 0 low_draws)
       @ replicate 10 (BlockClick 1 low_draws) @ [Tick 2000]"

section \<open>Rounding to doubles\<close>

lemma ilog2_bounds: "0 < n \<Longrightarrow> 2 ^ ilog2 n \<le> n \<and> n < 2 ^ (ilog2 n + 1)"
proof (induction n rule: ilog2.induct)
  case (1 n)
  show ?case
  proof (cases "n < 2")
    case True
    with "1.prems" show ?thesis by (simp add: ilog2.simps)
  next
    case False
    define k where "k = ilog2 (n div 2)"
    from False have "0 < n div 2" by simp
    with "1.IH" False have a: "2 ^ k \<le> n div 2" and b: "n div 2 < 2 * 2 ^ k"
      by (simp_all add: k_def)
    have c: "2 * (n div 2) \<le> n" and d: "n < 2 * (n div 2) + 2"
      by presburger+
    have "ilog2 n = Suc k"
      using False by (simp add: ilog2.simps k_def)
    then have "(2::nat) ^ ilog2 n = 2 * 2 ^ k" and "(2::nat) ^ (ilog2 n + 1) = 2 * (2 * 2 ^ k)"
      by simp_all
    with a b c d show ?thesis by linarith
  qed
qed

lemma binexp_bounds:
  assumes "0 < x"
  shows "2 powi binexp x \<le> x \<and> x < 2 powi (binexp x + 1)"
proof (cases "1 \<le> x")
  case True
  define k where "k = ilog2 (nat \<lfloor>x\<rfloor>)"
  from True have n: "0 < nat \<lfloor>x\<rfloor>" by simp
  from True have e: "binexp x = int k" by (simp add: binexp_def k_def)
  from ilog2_bounds [OF n] have "2 ^ k \<le> nat \<lfloor>x\<rfloor>" and "Suc (nat \<lfloor>x\<rfloor>) \<le> 2 ^ (k + 1)"
    by (simp_all add: k_def)
  then have "real (2 ^ k) \<le> real (nat \<lfloor>x\<rfloor>)" and "real (Suc (nat \<lfloor>x\<rfloor>)) \<le> real (2 ^ (k + 1))"
    by (simp_all only: of_nat_le_iff)
  moreover have "real (nat \<lfloor>x\<rfloor>) = real_of_int \<lfloor>x\<rfloor>" using True by simp
  ultimately have "2 ^ k \<le> real_of_int \<lfloor>x\<rfloor>" and "real_of_int \<lfloor>x\<rfloor> + 1 \<le> 2 ^ (k + 1)"
    by simp_all
  moreover have "real_of_int \<lfloor>x\<rfloor> \<le> x" and "x < real_of_int \<lfloor>x\<rfloor> + 1" by linarith+
  ultimately have "2 ^ k \<le> x" and "x < 2 ^ (k + 1)" by linarith+
  moreover have "(2::real) powi (int k + 1) = 2 ^ (k + 1)"
    by (simp add: power_int_add)
  ultimately show ?thesis
    unfolding e by simp
next
  case False
  define c where "c = \<lceil>1 / x\<rceil>"
  define k where "k = ilog2 (nat (c - 1))"
  from False assms have y: "1 < 1 / x" by simp
  then have c: "2 \<le> c" unfolding c_def by linarith
  then have n: "0 < nat (c - 1)" by simp
  from False have e: "binexp x = - int k - 1" by (simp add: binexp_def k_def c_def)
  from ilog2_bounds [OF n] have "2 ^ k \<le> nat (c - 1)" and "Suc (nat (c - 1)) \<le> 2 ^ (k + 1)"
    by (simp_all add: k_def)
  then have "real (2 ^ k) \<le> real (nat (c - 1))" and "real (Suc (nat (c - 1))) \<le> real (2 ^ (k + 1))"
    by (simp_all only: of_nat_le_iff)
  moreover have "real (nat (c - 1)) = real_of_int c - 1" using c by simp
  ultimately have "2 ^ k \<le> real_of_int c - 1" and "real_of_int c \<le> 2 ^ (k + 1)"
    by simp_all
  moreover have "real_of_int c - 1 < 1 / x" and "1 / x \<le> real_of_int c"
    unfolding c_def by linarith+
  ultimately have lo: "2 ^ k < 1 / x" and hi: "1 / x \<le> 2 ^ (k + 1)" by linarith+
  have pk: "0 < (2::real) ^ k" and pk1: "0 < (2::real) ^ (k + 1)" by simp_all
  from lo assms have "x * 2 ^ k < 1" by (simp add: field_simps)
  then have a: "x < 1 / 2 ^ k" by (simp add: field_simps)
  from hi assms have "1 \<le> x * 2 ^ (k + 1)" by (simp add: field_simps)
  then have b: "1 / 2 ^ (k + 1) \<le> x" by (simp add: field_simps)
  have p1: "(2::real) powi (- int k - 1) = 1 / 2 ^ (k + 1)"
    by (simp add: power_int_diff power_int_minus field_simps)
  have p2: "(2::real) powi (- int k - 1 + 1) = 1 / 2 ^ k"
    by (simp add: power_int_minus field_simps)
  show ?thesis unfolding e p1 p2 using a b by simp
qed

lemma binexp_unique:
  assumes "2 powi e \<le> x" and "x < 2 powi (e + 1)"
  shows "binexp x = e"
proof -
  have "0 < (2::real) powi e" by simp
  with assms have x: "0 < x" by linarith
  note b = binexp_bounds [OF x]
  have "\<not> binexp x + 1 \<le> e"
  proof
    assume "binexp x + 1 \<le> e"
    then have "(2::real) powi (binexp x + 1) \<le> 2 powi e"
      by (intro power_int_increasing) simp_all
    with assms b show False by linarith
  qed
  moreover have "\<not> e + 1 \<le> binexp x"
  proof
    assume "e + 1 \<le> binexp x"
    then have "(2::real) powi (e + 1) \<le> 2 powi binexp x"
      by (intro power_int_increasing) simp_all
    with assms b show False by linarith
  qed
  ultimately show ?thesis by simp
qed

lemma binexp_mono:
  assumes "0 < x" and "x \<le> y"
  shows "binexp x \<le> binexp y"
proof (rule ccontr)
  assume "\<not> binexp x \<le> binexp y"
  then have "binexp y + 1 \<le> binexp x" by simp
  then have "(2::real) powi (binexp y + 1) \<le> 2 powi binexp x"
    by (intro power_int_increasing) simp_all
  moreover from assms have "0 < y" by simp
  ultimately show False
    using binexp_bounds [OF assms(1)] binexp_bounds [OF \<open>0 < y\<close>] assms(2) by linarith
qed

lemma rne_of_int: "rne (real_of_int n) = n"
  by (simp add: rne_def)

lemma rne_bounds: "\<lfloor>x\<rfloor> \<le> rne x \<and> rne x \<le> \<lfloor>x\<rfloor> + 1"
  by (simp add: rne_def Let_def)

lemma rne_mono:
  assumes "x \<le> y"
  shows "rne x \<le> rne y"
proof -
  from assms have "\<lfloor>x\<rfloor> \<le> \<lfloor>y\<rfloor>" by (rule floor_mono)
  then consider "\<lfloor>x\<rfloor> = \<lfloor>y\<rfloor>" | "\<lfloor>x\<rfloor> + 1 \<le> \<lfloor>y\<rfloor>" by linarith
  then show ?thesis
  proof cases
    case 1
    with assms show ?thesis
      by (auto simp add: rne_def Let_def)
  next
    case 2
    with rne_bounds [of x] rne_bounds [of y] show ?thesis by linarith
  qed
qed

lemma rne_le_int: "x \<le> real_of_int n \<Longrightarrow> rne x \<le> n"
  using rne_mono [of x "real_of_int n"] by (simp add: rne_of_int)

lemma rne_ge_int: "real_of_int n \<le> x \<Longrightarrow> n \<le> rne x"
  using rne_mono [of "real_of_int n" x] by (simp add: rne_of_int)

lemma fl_expo: "x \<noteq> 0 \<Longrightarrow> fl x = real_of_int (rne (x / 2 powi (expo x - 52))) * 2 powi (expo x - 52)"
  by (simp add: fl_def Let_def)

lemma fl_zero: "fl 0 = 0"
  by (simp add: fl_def)

lemma powi_53: "(2::real) powi (e + 1) = 2 powi 53 * 2 powi (e - 52)"
proof -
  have "(2::real) powi (e + 1) = 2 powi (53 + (e - 52))"
    by (rule arg_cong [where f = "\<lambda>n. 2 powi n"]) simp
  also have "\<dots> = 2 powi 53 * 2 powi (e - 52)"
    by (rule power_int_add) simp
  finally show ?thesis .
qed

lemma powi_52: "(2::real) powi e = 2 powi 52 * 2 powi (e - 52)"
proof -
  have "(2::real) powi e = 2 powi (52 + (e - 52))"
    by (rule arg_cong [where f = "\<lambda>n. 2 powi n"]) simp
  also have "\<dots> = 2 powi 52 * 2 powi (e - 52)"
    by (rule power_int_add) simp
  finally show ?thesis .
qed

lemma fl_upper:
  assumes "0 < x"
  shows "fl x \<le> 2 powi (expo x + 1)"
proof -
  let ?u = "(2::real) powi (expo x - 52)"
  have u: "0 < ?u" by simp
  have "binexp x + 1 \<le> expo x + 1" using assms by (simp add: expo_def)
  then have "(2::real) powi (binexp x + 1) \<le> 2 powi (expo x + 1)"
    by (intro power_int_increasing) simp_all
  with binexp_bounds [OF assms] have "x \<le> 2 powi (expo x + 1)" by linarith
  also have "(2::real) powi (expo x + 1) = 2 powi 53 * ?u"
    by (rule powi_53)
  finally have "x / ?u \<le> 2 powi 53"
    using u by (simp only: pos_divide_le_eq)
  then have "x / ?u \<le> real_of_int (2 ^ 53)" by simp
  then have "rne (x / ?u) \<le> 2 ^ 53" by (rule rne_le_int)
  then have "real_of_int (rne (x / ?u)) \<le> real_of_int (2 ^ 53)"
    by (simp only: of_int_le_iff)
  then have "real_of_int (rne (x / ?u)) \<le> 2 powi 53"
    by simp
  then have "real_of_int (rne (x / ?u)) * ?u \<le> 2 powi 53 * ?u"
    using u by (intro mult_right_mono) simp_all
  also have "\<dots> = 2 powi (expo x + 1)" by (rule powi_53 [symmetric])
  finally show ?thesis using assms by (simp add: fl_expo)
qed

lemma fl_lower:
  assumes "0 < x" and "- 1022 \<le> binexp x"
  shows "2 powi expo x \<le> fl x"
proof -
  let ?u = "(2::real) powi (expo x - 52)"
  have u: "0 < ?u" by simp
  from assms have e: "expo x = binexp x" by (simp add: expo_def)
  have "(2::real) powi expo x = 2 powi 52 * ?u"
    by (rule powi_52)
  with binexp_bounds [OF assms(1)] e have "2 powi 52 * ?u \<le> x" by simp
  then have "2 powi 52 \<le> x / ?u"
    using u by (simp only: pos_le_divide_eq)
  then have "real_of_int (2 ^ 52) \<le> x / ?u" by simp
  then have "2 ^ 52 \<le> rne (x / ?u)" by (rule rne_ge_int)
  then have "real_of_int (2 ^ 52) \<le> real_of_int (rne (x / ?u))"
    by (simp only: of_int_le_iff)
  then have "2 powi 52 \<le> real_of_int (rne (x / ?u))"
    by simp
  then have "2 powi 52 * ?u \<le> real_of_int (rne (x / ?u)) * ?u"
    using u by (intro mult_right_mono) simp_all
  also have "\<dots> = fl x" using assms by (simp add: fl_expo)
  finally show ?thesis by (simp only: powi_52 [symmetric])
qed

lemma fl_mono_pos:
  assumes "0 < x" and "x \<le> y"
  shows "fl x \<le> fl y"
proof -
  from assms have y: "0 < y" by simp
  from binexp_mono [OF assms] assms y have "expo x \<le> expo y"
    by (simp add: expo_def)
  then consider "expo x = expo y" | "expo x + 1 \<le> expo y" by linarith
  then show ?thesis
  proof cases
    case 1
    let ?u = "(2::real) powi (expo y - 52)"
    have "x / ?u \<le> y / ?u" using assms by (simp add: divide_right_mono)
    then have "rne (x / ?u) \<le> rne (y / ?u)" by (rule rne_mono)
    then have "real_of_int (rne (x / ?u)) * ?u \<le> real_of_int (rne (y / ?u)) * ?u"
      by (intro mult_right_mono) simp_all
    with 1 assms y show ?thesis by (simp add: fl_expo)
  next
    case 2
    then have b: "- 1022 \<le> binexp y" and "expo y = binexp y"
      using y by (simp_all add: expo_def)
    from 2 have "(2::real) powi (expo x + 1) \<le> 2 powi expo y"
      by (intro power_int_increasing) simp_all
    with fl_upper [OF assms(1)] fl_lower [OF y b] show ?thesis by linarith
  qed
qed

lemma fl_nonneg: "0 \<le> x \<Longrightarrow> 0 \<le> fl x"
proof (cases "x = 0")
  case True
  then show ?thesis by (simp add: fl_zero)
next
  case False
  assume "0 \<le> x"
  then have "real_of_int 0 \<le> x / 2 powi (expo x - 52)" by simp
  then have "0 \<le> rne (x / 2 powi (expo x - 52))" by (rule rne_ge_int)
  with False show ?thesis by (simp add: fl_expo)
qed

lemma fl_nonpos: "x \<le> 0 \<Longrightarrow> fl x \<le> 0"
proof (cases "x = 0")
  case True
  then show ?thesis by (simp add: fl_zero)
next
  case False
  assume "x \<le> 0"
  then have "x / 2 powi (expo x - 52) \<le> real_of_int 0"
    by (simp add: divide_nonpos_pos)
  then have "rne (x / 2 powi (expo x - 52)) \<le> 0" by (rule rne_le_int)
  with False show ?thesis by (simp add: fl_expo mult_le_0_iff)
qed

lemma fl_mono_nonneg: "0 \<le> x \<Longrightarrow> x \<le> y \<Longrightarrow> fl x \<le> fl y"
  using fl_mono_pos [of x y] fl_nonneg [of y] by (cases "x = 0") (simp_all add: fl_zero)

lemma fl_eval:
  assumes "2 powi e \<le> \<bar>x\<bar>" and "\<bar>x\<bar> < 2 powi (e + 1)" and "- 1022 \<le> e"
  shows "fl x = real_of_int (rne (x / 2 powi (e - 52))) * 2 powi (e - 52)"
proof -
  have "0 < (2::real) powi e" by simp
  with assms(1) have "0 < \<bar>x\<bar>" by linarith
  then have "x \<noteq> 0" by simp
  moreover from binexp_unique [OF assms(1,2)] assms(3) have "expo x = e"
    by (simp add: expo_def)
  ultimately show ?thesis by (simp add: fl_expo)
qed

lemma fl_le_one: "x \<le> 1 \<Longrightarrow> fl x \<le> 1"
proof (cases "x \<le> 0")
  case True
  then have "fl x \<le> 0" by (rule fl_nonpos)
  then show ?thesis by simp
next
  case False
  assume "x \<le> 1"
  with False have "fl x \<le> fl 1" by (intro fl_mono_pos) simp_all
  also have "fl 1 = 1"
    by (simp add: fl_def expo_def binexp_def rne_def Let_def ilog2.simps)
  finally show ?thesis .
qed

text \<open>Evaluating \<open>fl\<close> at a number that is written out.\<close>

lemmas fl_code = fl_def expo_def binexp_def rne_def Let_def ilog2.simps

lemma fl_08: "fl 0.8 = 3602879701896397 / 4503599627370496" "fl (4 / 5) = 3602879701896397 / 4503599627370496"
  by (simp_all add: fl_code)

lemma fl_99: "fl (99 / 100) = 4458563631096791 / 4503599627370496"
  by (simp add: fl_code)

lemma fl_whole: "fl 1 = 1" "fl 4 = 4" "fl 9 = 9" "fl 20 = 20"
  by (simp_all add: fl_code)

text \<open>
  The rounding at work: \<open>0.1 + 0.2\<close> is \<open>0.30000000000000004\<close> and not the double \<open>0.3\<close>;
  a tie goes to the even significand; \<open>0.96 * 25\<close> rounds up to 24 and \<open>0.7 * 40\<close> to 28,
  where the exact products of these doubles lie just below.
\<close>

lemma fl_examples:
  "fl (fl (1 / 10) + fl (2 / 10)) = 1351079888211149 / 4503599627370496"
  "fl (fl (1 / 10) + fl (2 / 10)) \<noteq> fl (3 / 10)"
  "fl (1 + 1 / 2 ^ 53) = 1"
  "fl (1 + 3 / 2 ^ 53) = 1 + 1 / 2 ^ 51"
  "fl (96 / 100) * 25 < 24 \<and> fl (fl (96 / 100) * 25) = 24"
  "fl (7 / 10) * 40 < 28 \<and> fl (fl (7 / 10) * 40) = 28"
  by (simp_all add: fl_code)

text \<open>A double below 1 is at most \<open>1 - 2^-53\<close>.\<close>

lemma unit_draw_le:
  assumes "unit_draw r"
  shows "r \<le> 1 - 1 / 2 ^ 53"
proof (cases "r < 1 / 2")
  case True
  then show ?thesis by simp
next
  case False
  from assms have r: "fl r = r" "0 \<le> r" "r < 1"
    by (simp_all add: unit_draw_def)
  define N where "N = rne (r * 2 ^ 53)"
  have p: "(2::real) powi (- 1 - 52) = 1 / 2 ^ 53"
    by simp
  have "2 powi (- 1) \<le> \<bar>r\<bar>" and "\<bar>r\<bar> < 2 powi (- 1 + 1)"
    using False r by simp_all
  then have "fl r = real_of_int (rne (r / 2 powi (- 1 - 52))) * 2 powi (- 1 - 52)"
    by (rule fl_eval) simp
  then have "fl r = real_of_int (rne (r / (1 / 2 ^ 53))) * (1 / 2 ^ 53)"
    by (simp only: p)
  then have "fl r = real_of_int N / 2 ^ 53"
    by (simp add: N_def)
  with r(1) have eq: "r = real_of_int N / 2 ^ 53"
    by (simp only:)
  from r(3) have "real_of_int N < real_of_int (2 ^ 53)"
    unfolding eq by simp
  then have "N < 2 ^ 53"
    by (simp only: of_int_less_iff)
  then have "N \<le> 2 ^ 53 - 1"
    by simp
  then have "real_of_int N \<le> real_of_int (2 ^ 53 - 1)"
    by (simp only: of_int_le_iff)
  then show ?thesis
    unfolding eq by (simp add: field_simps)
qed

text \<open>
  The floor of a draw scaled by 40, by 360 or by the tile count of a grid stays below the
  factor, as the largest draw shows.
\<close>

lemma floor_scaled_draw:
  assumes "unit_draw r" and "0 < n" and "fl ((1 - 1 / 2 ^ 53) * real_of_int n) < real_of_int n"
  shows "0 \<le> \<lfloor>fl (r * real_of_int n)\<rfloor> \<and> \<lfloor>fl (r * real_of_int n)\<rfloor> < n"
proof -
  from assms(1) have r: "0 \<le> r" by (simp add: unit_draw_def)
  with assms(2) have "0 \<le> r * real_of_int n" by simp
  then have lo: "0 \<le> fl (r * real_of_int n)" by (rule fl_nonneg)
  from unit_draw_le [OF assms(1)] assms(2)
  have "r * real_of_int n \<le> (1 - 1 / 2 ^ 53) * real_of_int n"
    by (intro mult_right_mono) simp_all
  with \<open>0 \<le> r * real_of_int n\<close>
  have "fl (r * real_of_int n) \<le> fl ((1 - 1 / 2 ^ 53) * real_of_int n)"
    by (rule fl_mono_nonneg)
  with assms(3) have "fl (r * real_of_int n) < real_of_int n" by linarith
  with lo show ?thesis by (simp add: floor_less_iff)
qed

lemma floor_draw_40:
  assumes "unit_draw r"
  shows "0 \<le> \<lfloor>fl (r * 40)\<rfloor> \<and> \<lfloor>fl (r * 40)\<rfloor> < 40"
proof -
  have "fl ((1 - 1 / 2 ^ 53) * real_of_int 40) < real_of_int 40"
    by (simp add: fl_code)
  with assms have "0 \<le> \<lfloor>fl (r * real_of_int 40)\<rfloor> \<and> \<lfloor>fl (r * real_of_int 40)\<rfloor> < 40"
    by (intro floor_scaled_draw) simp_all
  then show ?thesis by simp
qed

lemma floor_draw_360:
  assumes "unit_draw r"
  shows "0 \<le> \<lfloor>fl (r * 360)\<rfloor> \<and> \<lfloor>fl (r * 360)\<rfloor> < 360"
proof -
  have "fl ((1 - 1 / 2 ^ 53) * real_of_int 360) < real_of_int 360"
    by (simp add: fl_code)
  with assms have "0 \<le> \<lfloor>fl (r * real_of_int 360)\<rfloor> \<and> \<lfloor>fl (r * real_of_int 360)\<rfloor> < 360"
    by (intro floor_scaled_draw) simp_all
  then show ?thesis by simp
qed

lemma floor_draw_grid:
  assumes "unit_draw r" and "5 \<le> g" and "g \<le> 9"
  shows "0 \<le> \<lfloor>fl (r * real_of_int (g * g))\<rfloor> \<and> \<lfloor>fl (r * real_of_int (g * g))\<rfloor> < g * g"
proof -
  from assms(2,3) have "g = 5 \<or> g = 6 \<or> g = 7 \<or> g = 8 \<or> g = 9"
    by linarith
  then have "fl ((1 - 1 / 2 ^ 53) * real_of_int (g * g)) < real_of_int (g * g)"
    by (elim disjE) (simp_all add: fl_code)
  moreover from assms(2) have "0 < g * g"
    by simp
  ultimately show ?thesis
    using assms(1) by (intro floor_scaled_draw)
qed

section \<open>Grid size and colour delta\<close>

lemma newGridSize_table:
  "newGridSize 1 = 5"
  "newGridSize 2 = 5"
  "newGridSize 3 = 5"
  "newGridSize 4 = 5"
  "newGridSize 5 = 5"
  "newGridSize 6 = 6"
  "newGridSize 7 = 6"
  "newGridSize 8 = 6"
  "newGridSize 9 = 6"
  "newGridSize 10 = 6"
  "newGridSize 11 = 7"
  "newGridSize 12 = 7"
  "newGridSize 13 = 7"
  "newGridSize 14 = 7"
  "newGridSize 15 = 7"
  "newGridSize 16 = 8"
  "newGridSize 17 = 8"
  "newGridSize 18 = 8"
  "newGridSize 19 = 8"
  "newGridSize 20 = 8"
  by (simp_all add: newGridSize_def fl_code)

lemma newGridSize_from21:
  assumes "21 \<le> lv"
  shows "newGridSize lv = 9"
proof -
  from assms have "20 \<le> real_of_int lv - 1" by simp
  then have "fl 20 \<le> fl (real_of_int lv - 1)" by (intro fl_mono_pos) simp_all
  then have "4 \<le> fl (real_of_int lv - 1) / 5" by (simp add: fl_whole)
  then have "fl 4 \<le> fl (fl (real_of_int lv - 1) / 5)" by (intro fl_mono_pos) simp_all
  then have "9 \<le> 5 + fl (fl (real_of_int lv - 1) / 5)" by (simp add: fl_whole)
  then have "fl 9 \<le> fl (5 + fl (fl (real_of_int lv - 1) / 5))" by (intro fl_mono_pos) simp_all
  then have "real_of_int 9 \<le> fl (5 + fl (fl (real_of_int lv - 1) / 5))" by (simp add: fl_whole)
  then have "9 \<le> \<lfloor>fl (5 + fl (fl (real_of_int lv - 1) / 5))\<rfloor>" by (simp only: le_floor_iff)
  then show ?thesis by (simp add: newGridSize_def)
qed

text \<open>For every level from 1 on, the doubles give the grid size of exact arithmetic.\<close>

lemma newGridSize_div:
  assumes "1 \<le> lv"
  shows "newGridSize lv = min 9 (5 + (lv - 1) div 5)"
proof (cases "lv \<le> 20")
  case True
  with assms have "lv = 1 \<or> lv = 2 \<or> lv = 3 \<or> lv = 4 \<or> lv = 5 \<or> lv = 6 \<or> lv = 7 \<or> lv = 8 \<or> lv = 9 \<or> lv = 10 \<or> lv = 11 \<or> lv = 12 \<or> lv = 13 \<or> lv = 14 \<or> lv = 15 \<or> lv = 16 \<or> lv = 17 \<or> lv = 18 \<or> lv = 19 \<or> lv = 20"
    by presburger
  then show ?thesis
    by (elim disjE) (simp_all add: newGridSize_table)
next
  case False
  then have "21 \<le> lv" by simp
  moreover from this have "4 \<le> (lv - 1) div 5" by linarith
  ultimately show ?thesis by (simp add: newGridSize_from21)
qed

lemma floor_fifth: "\<lfloor>5 + (real_of_int lv - 1) / 5\<rfloor> = 5 + (lv - 1) div 5"
proof -
  have "\<lfloor>real_of_int (lv - 1) / real_of_int 5\<rfloor> = (lv - 1) div 5"
    by (rule floor_divide_of_int_eq)
  then have "\<lfloor>(real_of_int lv - 1) / 5\<rfloor> = (lv - 1) div 5"
    by simp
  then show ?thesis
    by simp
qed

lemma newGridSize_mono:
  assumes "1 \<le> a" and "a \<le> b"
  shows "newGridSize a \<le> newGridSize b"
proof -
  from assms(2) have "(a - 1) div 5 \<le> (b - 1) div 5"
    by (intro zdiv_mono1) simp_all
  moreover from assms have "1 \<le> b" by simp
  ultimately show ?thesis
    using assms(1) by (simp add: newGridSize_div)
qed

lemma newGridSize_plus5:
  assumes "1 \<le> lv"
  shows "newGridSize (lv + 5) = min 9 (newGridSize lv + 1)"
proof -
  have "(lv + 5 - 1) div 5 = (lv - 1) div 5 + 1"
    by presburger
  moreover from assms have "1 \<le> lv + 5" by simp
  ultimately show ?thesis
    using assms by (simp add: newGridSize_div)
qed

lemma gridSize_generateLevel: "gridSize (generateLevel lv d s) = newGridSize lv"
  by (simp add: generateLevel_def Let_def)

lemma delta_generateLevel:
  "map_option delta (colorState (generateLevel lv d s)) = Some (baseDelta lv)"
  by (simp add: generateLevel_def Let_def)

lemma baseDelta_table:
  "baseDelta 1 = 3996944669291315 / 281474976710656"
  "baseDelta 2 = 7543529375845581 / 562949953421312"
  "baseDelta 3 = 7093169413108531 / 562949953421312"
  "baseDelta 4 = 3321404725185741 / 281474976710656"
  "baseDelta 5 = 11"
  "baseDelta 6 = 2871044762448691 / 281474976710656"
  "baseDelta 7 = 1322932390540083 / 140737488355328"
  "baseDelta 8 = 4841369599423283 / 562949953421312"
  "baseDelta 9 = 8782019273372467 / 1125899906842624"
  "baseDelta 10 = 7"
  "baseDelta 11 = 1745144855606067 / 281474976710656"
  "baseDelta 12 = 759982437118771 / 140737488355328"
  "baseDelta 13 = 2589569785738035 / 562949953421312"
  "baseDelta 14 = 2139209823000985 / 562949953421312"
  "baseDelta 15 = 3"
  "baseDelta 16 = 619244948763443 / 281474976710656"
  "baseDelta 17 = 197032483697459 / 140737488355328"
  "baseDelta 18 = 1"
  by (simp_all add: baseDelta_def fl_08) (simp_all add: fl_code)

lemma baseDelta_from18:
  assumes "18 \<le> lv"
  shows "baseDelta lv = 1"
proof -
  have v: "fl (18 * fl 0.8) = 8106479329266893 / 562949953421312"
    by (simp add: fl_08) (simp add: fl_code)
  from assms have "18 * fl 0.8 \<le> real_of_int lv * fl 0.8"
    by (intro mult_right_mono) (simp_all add: fl_08)
  then have "fl (18 * fl 0.8) \<le> fl (real_of_int lv * fl 0.8)"
    by (intro fl_mono_pos) (simp_all add: fl_08)
  then have "15 - fl (real_of_int lv * fl 0.8) \<le> 1"
    unfolding v by simp
  then have "fl (15 - fl (real_of_int lv * fl 0.8)) \<le> 1"
    by (rule fl_le_one)
  then show ?thesis
    by (simp add: baseDelta_def)
qed

lemma baseDelta_antimono:
  assumes "0 \<le> a" and "a \<le> b"
  shows "baseDelta b \<le> baseDelta a"
proof -
  let ?za = "fl (real_of_int a * fl 0.8)" and ?zb = "fl (real_of_int b * fl 0.8)"
  from assms have "0 \<le> real_of_int a * fl 0.8" and "real_of_int a * fl 0.8 \<le> real_of_int b * fl 0.8"
    by (simp_all add: fl_08)
  then have "?za \<le> ?zb"
    by (rule fl_mono_nonneg)
  then have le: "15 - ?zb \<le> 15 - ?za"
    by simp
  show ?thesis
  proof (cases "15 - ?zb \<le> 0")
    case True
    then have "fl (15 - ?zb) \<le> 0" by (rule fl_nonpos)
    then show ?thesis by (simp add: baseDelta_def)
  next
    case False
    with le have "fl (15 - ?zb) \<le> fl (15 - ?za)"
      by (intro fl_mono_pos) simp_all
    then show ?thesis by (simp add: baseDelta_def)
  qed
qed

text \<open>
  The rounded delta is not the exact \<open>max(1, 15 - 0.8 L)\<close>, but within \<open>2^-49\<close> of it.
\<close>

lemma baseDelta_near:
  assumes "1 \<le> lv"
  shows "\<bar>baseDelta lv - max 1 (15 - 0.8 * real_of_int lv)\<bar> \<le> 1 / 2 ^ 49"
proof (cases "lv \<le> 17")
  case True
  with assms have "lv = 1 \<or> lv = 2 \<or> lv = 3 \<or> lv = 4 \<or> lv = 5 \<or> lv = 6 \<or> lv = 7 \<or> lv = 8 \<or> lv = 9 \<or> lv = 10 \<or> lv = 11 \<or> lv = 12 \<or> lv = 13 \<or> lv = 14 \<or> lv = 15 \<or> lv = 16 \<or> lv = 17"
    by presburger
  then show ?thesis
    by (elim disjE) (simp_all add: baseDelta_table)
next
  case False
  then have "18 \<le> lv" by simp
  then have "baseDelta lv = 1" by (rule baseDelta_from18)
  moreover from \<open>18 \<le> lv\<close> have "max 1 (15 - 0.8 * real_of_int lv) = 1" by simp
  ultimately show ?thesis by simp
qed

text \<open>
  Claim C7. For every level \<open>L \<ge> 1\<close> the grid size that \<open>generateLevel L\<close> installs is
  \<open>min(9, floor(5 + (L - 1) / 5))\<close>: it is 5 at level 1, one more every five levels
  (\<open>5 + (L - 1) div 5\<close>) until the cap of 9, and it never decreases as the level grows.
\<close>

theorem gridSize_by_level:
  assumes "1 \<le> L"
  shows "gridSize (generateLevel L d s) = min 9 \<lfloor>5 + (real_of_int L - 1) / 5\<rfloor>
       \<and> gridSize (generateLevel L d s) = min 9 (5 + (L - 1) div 5)
       \<and> gridSize (generateLevel 1 d s) = 5
       \<and> gridSize (generateLevel (L + 5) d s) = min 9 (gridSize (generateLevel L d s) + 1)
       \<and> (\<forall>L' d' s'. L \<le> L' \<longrightarrow>
            gridSize (generateLevel L d s) \<le> gridSize (generateLevel L' d' s'))"
proof -
  have "newGridSize L = min 9 \<lfloor>5 + (real_of_int L - 1) / 5\<rfloor>"
    by (simp only: newGridSize_div [OF assms] floor_fifth)
  moreover have "newGridSize 1 = 5"
    by (rule newGridSize_table)
  ultimately show ?thesis
    using newGridSize_div [OF assms] newGridSize_plus5 [OF assms] newGridSize_mono [OF assms]
    by (simp only: gridSize_generateLevel) blast
qed

theorem gridSize_by_level_witness:
  "gridSize (generateLevel 6 low_draws initial) = 6
   \<and> gridSize (generateLevel 11 low_draws initial) = 7
   \<and> gridSize (generateLevel 6 low_draws initial)
       \<le> gridSize (generateLevel 30 high_draws initial)"
proof -
  have h: "(1::int) \<le> 6" by simp
  note t = gridSize_by_level [OF h, of low_draws initial]
  from t have "(6::int) \<le> 30 \<longrightarrow>
      gridSize (generateLevel 6 low_draws initial)
        \<le> gridSize (generateLevel 30 high_draws initial)"
    by blast
  with t show ?thesis
    by simp
qed

text \<open>
  Claim C8, as the code has it. For every level \<open>L \<ge> 1\<close> the \<open>delta\<close> field of the colour
  state that \<open>generateLevel L\<close> installs is the double that \<open>Math.max(1, 15 - L * 0.8)\<close>
  evaluates to. It is within \<open>2^-49\<close> of \<open>max(1, 15 - 0.8 L)\<close>, it is at least 1, and a higher
  level never has a larger delta.
\<close>

theorem delta_by_level:
  assumes "1 \<le> L"
  shows "map_option delta (colorState (generateLevel L d s))
           = Some (max 1 (fl (15 - fl (real_of_int L * fl 0.8))))
       \<and> (\<forall>cs. colorState (generateLevel L d s) = Some cs \<longrightarrow>
            \<bar>delta cs - max 1 (15 - 0.8 * real_of_int L)\<bar> \<le> 1 / 2 ^ 49 \<and> 1 \<le> delta cs)
       \<and> (\<forall>L' d' s' cs cs'. L \<le> L' \<longrightarrow>
            colorState (generateLevel L d s) = Some cs \<longrightarrow>
            colorState (generateLevel L' d' s') = Some cs' \<longrightarrow> delta cs' \<le> delta cs)"
proof -
  have eq: "baseDelta L = max 1 (fl (15 - fl (real_of_int L * fl 0.8)))"
    by (simp only: baseDelta_def)
  have ge: "1 \<le> baseDelta L"
    by (simp add: baseDelta_def)
  from assms have nonneg: "0 \<le> L"
    by simp
  have sel: "delta cs = baseDelta lv"
    if "colorState (generateLevel lv e t) = Some cs" for cs lv e t
    using delta_generateLevel [of lv e t] that by simp
  have "map_option delta (colorState (generateLevel L d s))
          = Some (max 1 (fl (15 - fl (real_of_int L * fl 0.8))))"
    by (simp only: delta_generateLevel eq)
  moreover have "\<bar>delta cs - max 1 (15 - 0.8 * real_of_int L)\<bar> \<le> 1 / 2 ^ 49 \<and> 1 \<le> delta cs"
    if "colorState (generateLevel L d s) = Some cs" for cs
    using baseDelta_near [OF assms] ge sel [OF that] by simp
  moreover have "delta cs' \<le> delta cs"
    if "L \<le> L'" and "colorState (generateLevel L d s) = Some cs"
      and "colorState (generateLevel L' d' s') = Some cs'" for L' d' s' cs cs'
    using baseDelta_antimono [OF nonneg that(1)] sel [OF that(2)] sel [OF that(3)] by simp
  ultimately show ?thesis
    by blast
qed

theorem delta_by_level_witness:
  "map_option delta (colorState (generateLevel 10 low_draws initial)) = Some 7
   \<and> map_option delta (colorState (generateLevel 20 low_draws initial)) = Some 1"
proof -
  have h1: "(1::int) \<le> 10" and h2: "(1::int) \<le> 20" by simp_all
  have "max 1 (fl (15 - fl (real_of_int 10 * fl 0.8))) = 7"
    using baseDelta_table(10) by (simp only: baseDelta_def)
  moreover have "max 1 (fl (15 - fl (real_of_int 20 * fl 0.8))) = 1"
    using baseDelta_from18 [of 20] by (simp add: baseDelta_def)
  ultimately show ?thesis
    using delta_by_level [OF h1, of low_draws initial]
      delta_by_level [OF h2, of low_draws initial] by (simp only:)
qed

text \<open>
  Claim C8 as the specification words it makes \<open>delta\<close> equal to \<open>max(1, 15 - 0.8 L)\<close>. At
  level 7 that is 47/5; the code stores \<open>9.399999999999998578...\<close>, which is neither 47/5
  nor the double nearest to it.
\<close>

theorem delta_level_7_is_not_exact:
  "map_option delta (colorState (generateLevel 7 low_draws initial))
     = Some (1322932390540083 / 140737488355328)
   \<and> map_option delta (colorState (generateLevel 7 low_draws initial))
       \<noteq> Some (max 1 (15 - 0.8 * real_of_int 7))
   \<and> map_option delta (colorState (generateLevel 7 low_draws initial))
       \<noteq> Some (fl (max 1 (15 - 0.8 * real_of_int 7)))"
  by (simp add: delta_generateLevel baseDelta_table) (simp add: fl_code)

section \<open>Picks and clock ticks\<close>

lemma generateLevel_frame:
  "stats (generateLevel lv d s) = stats s"
  "timeLeft (generateLevel lv d s) = timeLeft s"
  "gameState (generateLevel lv d s) = gameState s"
  by (simp_all add: generateLevel_def Let_def)

lemma generateLevel_reads_gridSize:
  "gridSize s = gridSize s' \<Longrightarrow>
   colorState (generateLevel lv d s) = colorState (generateLevel lv d s')"
  by (simp add: generateLevel_def Let_def)

lemma level6_game_events:
  "level6_game =
     [StartGame 1000 low_draws,
      BlockClick 0 low_draws, BlockClick 0 low_draws, BlockClick 0 low_draws,
      BlockClick 0 low_draws, BlockClick 0 low_draws,
      BlockClick 1 low_draws, BlockClick 1 low_draws, BlockClick 1 low_draws,
      BlockClick 1 low_draws, BlockClick 1 low_draws, BlockClick 1 low_draws,
      BlockClick 1 low_draws, BlockClick 1 low_draws, BlockClick 1 low_draws,
      BlockClick 1 low_draws, Tick 2000]"
  by (simp add: level6_game_def numeral_eq_Suc)

lemma run_level6_game:
  "run level6_game =
     \<lparr> gameState = Gameover,
       colorState = Some \<lparr> baseColor = \<lparr> hue = 0, saturation = 60, lightness = 30 \<rparr>,
                           diffColor = \<lparr> hue = 0, saturation = 60,
                                         lightness = 5573204538870989 / 281474976710656 \<rparr>,
                           diffIndex = 0, delta = 2871044762448691 / 281474976710656 \<rparr>,
       stats = \<lparr> score = 5, startTime = 1000, endTime = 2000, level = 6 \<rparr>,
       timeLeft = 0, gridSize = 6 \<rparr>"
  unfolding level6_game_events
  by (simp add: run_def low_draws_def initial_def startGame_def generateLevel_def
      handleBlockClick_def tick_def endGame_def baseDelta_table newGridSize_table fl_zero
      Let_def)
    (simp add: fl_code)

lemma run_first_level:
  "run [StartGame 1000 low_draws] =
     \<lparr> gameState = Playing,
       colorState = Some \<lparr> baseColor = \<lparr> hue = 0, saturation = 60, lightness = 30 \<rparr>,
                           diffColor = \<lparr> hue = 0, saturation = 60,
                                         lightness = 4447304632028365 / 281474976710656 \<rparr>,
                           diffIndex = 0, delta = 3996944669291315 / 281474976710656 \<rparr>,
       stats = \<lparr> score = 0, startTime = 1000, endTime = 0, level = 1 \<rparr>,
       timeLeft = 45, gridSize = 5 \<rparr>"
  by (simp add: run_def low_draws_def initial_def startGame_def generateLevel_def
      baseDelta_table newGridSize_table fl_zero Let_def)
    (simp add: fl_code)

text \<open>
  Claim C4. A click on the target index while playing adds exactly 1 to \<open>score\<close> and to
  \<open>level\<close>, sets \<open>timeLeft\<close> to \<open>min(60, timeLeft + 1)\<close>, and installs the grid size and the
  colour state that the level generator produces for the new level (from the state the
  click was made in); the phase and the two timestamps stay.
\<close>

theorem correct_pick:
  assumes "gameState s = Playing" and "colorState s = Some cs" and "index = diffIndex cs"
  shows "score (stats (handleBlockClick index d s)) = score (stats s) + 1
       \<and> level (stats (handleBlockClick index d s)) = level (stats s) + 1
       \<and> timeLeft (handleBlockClick index d s) = min 60 (timeLeft s + 1)
       \<and> gridSize (handleBlockClick index d s)
           = gridSize (generateLevel (level (stats s) + 1) d s)
       \<and> colorState (handleBlockClick index d s)
           = colorState (generateLevel (level (stats s) + 1) d s)
       \<and> gameState (handleBlockClick index d s) = Playing
       \<and> startTime (stats (handleBlockClick index d s)) = startTime (stats s)
       \<and> endTime (stats (handleBlockClick index d s)) = endTime (stats s)"
proof -
  let ?lv = "level (stats s) + 1"
  let ?t = "s \<lparr> stats := (stats s) \<lparr> score := score (stats s) + 1, level := ?lv \<rparr>,
               timeLeft := min 60 (timeLeft s + 1) \<rparr>"
  have click: "handleBlockClick index d s = generateLevel ?lv d ?t"
    using assms by (simp add: handleBlockClick_def Let_def)
  have "colorState (generateLevel ?lv d ?t) = colorState (generateLevel ?lv d s)"
    by (rule generateLevel_reads_gridSize) simp
  then show ?thesis
    using assms(1) by (simp add: click generateLevel_frame gridSize_generateLevel)
qed

theorem correct_pick_witness:
  "score (stats (handleBlockClick 0 high_draws (run [StartGame 1000 low_draws]))) = 1
   \<and> level (stats (handleBlockClick 0 high_draws (run [StartGame 1000 low_draws]))) = 2
   \<and> timeLeft (handleBlockClick 0 high_draws (run [StartGame 1000 low_draws])) = 46
   \<and> gridSize (handleBlockClick 0 high_draws (run [StartGame 1000 low_draws])) = 5"
proof -
  let ?s = "run [StartGame 1000 low_draws]"
  have h1: "gameState ?s = Playing"
    by (simp add: run_first_level)
  obtain cs where h2: "colorState ?s = Some cs" and cs: "diffIndex cs = 0"
    by (simp add: run_first_level)
  from cs have h3: "(0::int) = diffIndex cs"
    by simp
  have "gridSize (generateLevel 2 high_draws ?s) = 5"
    by (simp add: gridSize_generateLevel newGridSize_table)
  then show ?thesis
    using correct_pick [OF h1 h2 h3, of high_draws] by (simp add: run_first_level)
qed

text \<open>
  Claim C5. A click on any other index while playing sets \<open>timeLeft\<close> to
  \<open>max(0, timeLeft - 5)\<close> and changes nothing else: score, level, phase, colour state and
  grid size stay. A penalty that brings \<open>timeLeft\<close> to 0 leaves the phase \<open>playing\<close>.
\<close>

theorem wrong_pick:
  assumes "gameState s = Playing" and "colorState s = Some cs" and "index \<noteq> diffIndex cs"
  shows "handleBlockClick index d s = s \<lparr> timeLeft := max 0 (timeLeft s - 5) \<rparr>
       \<and> timeLeft (handleBlockClick index d s) = max 0 (timeLeft s - 5)
       \<and> stats (handleBlockClick index d s) = stats s
       \<and> gameState (handleBlockClick index d s) = Playing
       \<and> colorState (handleBlockClick index d s) = Some cs
       \<and> gridSize (handleBlockClick index d s) = gridSize s
       \<and> (timeLeft s \<le> 5 \<longrightarrow>
            timeLeft (handleBlockClick index d s) = 0
            \<and> gameState (handleBlockClick index d s) = Playing)"
  using assms by (simp add: handleBlockClick_def)

theorem wrong_pick_witness:
  "timeLeft (handleBlockClick 7 high_draws (run [StartGame 1000 low_draws] \<lparr> timeLeft := 3 \<rparr>)) = 0
   \<and> gameState (handleBlockClick 7 high_draws (run [StartGame 1000 low_draws] \<lparr> timeLeft := 3 \<rparr>))
       = Playing
   \<and> score (stats (handleBlockClick 7 high_draws (run [StartGame 1000 low_draws] \<lparr> timeLeft := 3 \<rparr>)))
       = 0"
proof -
  let ?s = "run [StartGame 1000 low_draws] \<lparr> timeLeft := 3 \<rparr>"
  have h1: "gameState ?s = Playing"
    by (simp add: run_first_level)
  obtain cs where h2: "colorState ?s = Some cs" and cs: "diffIndex cs = 0"
    by (simp add: run_first_level)
  from cs have h3: "(7::int) \<noteq> diffIndex cs"
    by simp
  show ?thesis
    using wrong_pick [OF h1 h2 h3, of high_draws] by (simp add: run_first_level)
qed

text \<open>
  Claim C6. A clock tick while playing: when \<open>timeLeft \<le> 1\<close> it sets \<open>timeLeft\<close> to 0 and
  ends the game (\<open>endGame\<close>: the phase becomes \<open>gameover\<close> and \<open>endTime\<close> is recorded);
  otherwise it takes exactly 1 from \<open>timeLeft\<close> and leaves everything else, the phase
  included, as it was.
\<close>

theorem clock_tick:
  assumes "gameState s = Playing"
  shows "(timeLeft s \<le> 1 \<longrightarrow>
            tick now s = (endGame now s) \<lparr> timeLeft := 0 \<rparr>
            \<and> timeLeft (tick now s) = 0
            \<and> gameState (tick now s) = Gameover
            \<and> endTime (stats (tick now s)) = now)
       \<and> (1 < timeLeft s \<longrightarrow>
            tick now s = s \<lparr> timeLeft := timeLeft s - 1 \<rparr>
            \<and> timeLeft (tick now s) = timeLeft s - 1
            \<and> gameState (tick now s) = Playing)"
  using assms by (simp add: tick_def endGame_def)

theorem clock_tick_witness:
  "timeLeft (tick 2000 (run [StartGame 1000 low_draws])) = 44
   \<and> gameState (tick 2000 (run [StartGame 1000 low_draws])) = Playing
   \<and> timeLeft (tick 2000 (run [StartGame 1000 low_draws] \<lparr> timeLeft := 1 \<rparr>)) = 0
   \<and> gameState (tick 2000 (run [StartGame 1000 low_draws] \<lparr> timeLeft := 1 \<rparr>)) = Gameover
   \<and> endTime (stats (tick 2000 (run [StartGame 1000 low_draws] \<lparr> timeLeft := 1 \<rparr>))) = 2000"
proof -
  let ?s = "run [StartGame 1000 low_draws]"
  have h1: "gameState ?s = Playing" and h2: "gameState (?s \<lparr> timeLeft := 1 \<rparr>) = Playing"
    by (simp_all add: run_first_level)
  have t1: "1 < timeLeft ?s" and v1: "timeLeft ?s - 1 = 44"
    and t2: "timeLeft (?s \<lparr> timeLeft := 1 \<rparr>) \<le> 1"
    by (simp_all add: run_first_level)
  from clock_tick [OF h1, of 2000] t1
  have "timeLeft (tick 2000 ?s) = timeLeft ?s - 1 \<and> gameState (tick 2000 ?s) = Playing"
    by blast
  moreover from clock_tick [OF h2, of 2000] t2
  have "timeLeft (tick 2000 (?s \<lparr> timeLeft := 1 \<rparr>)) = 0
      \<and> gameState (tick 2000 (?s \<lparr> timeLeft := 1 \<rparr>)) = Gameover
      \<and> endTime (stats (tick 2000 (?s \<lparr> timeLeft := 1 \<rparr>))) = 2000"
    by blast
  ultimately show ?thesis
    by (simp only: v1)
qed

text \<open>
  Claim C9. When the phase is not \<open>playing\<close>, a click and a clock tick leave the whole
  session state as it was; a click also does nothing when there is no colour state.
\<close>

theorem not_playing_noop:
  "(gameState s \<noteq> Playing \<longrightarrow> handleBlockClick index d s = s \<and> tick now s = s)
   \<and> (colorState s = None \<longrightarrow> handleBlockClick index d s = s)"
  by (simp add: handleBlockClick_def tick_def split: option.split)

theorem not_playing_noop_witness:
  "handleBlockClick 0 high_draws (run level6_game) = run level6_game
   \<and> tick 3000 (run level6_game) = run level6_game
   \<and> handleBlockClick 0 high_draws (initial \<lparr> gameState := Playing \<rparr>)
       = initial \<lparr> gameState := Playing \<rparr>"
proof -
  have h1: "gameState (run level6_game) \<noteq> Playing"
    by (simp add: run_level6_game)
  have h2: "colorState (initial \<lparr> gameState := Playing \<rparr>) = None"
    by (simp add: initial_def)
  show ?thesis
    using not_playing_noop [of "run level6_game" 0 high_draws 3000]
      not_playing_noop [of "initial \<lparr> gameState := Playing \<rparr>" 0 high_draws 3000] h1 h2
    by simp
qed

section \<open>Level and score\<close>

lemma level_score_startGame:
  "level (stats (startGame now d s)) = score (stats (startGame now d s)) + 1"
  by (simp add: startGame_def generateLevel_frame)

lemma level_score_click:
  "level (stats s) = score (stats s) + 1 \<Longrightarrow>
   level (stats (handleBlockClick i d s)) = score (stats (handleBlockClick i d s)) + 1"
  by (simp add: handleBlockClick_def Let_def generateLevel_frame split: option.split)

lemma level_score_endGame:
  "level (stats s) = score (stats s) + 1 \<Longrightarrow>
   level (stats (endGame now s)) = score (stats (endGame now s)) + 1"
  by (simp add: endGame_def)

lemma level_score_tick:
  "level (stats s) = score (stats s) + 1 \<Longrightarrow>
   level (stats (tick now s)) = score (stats (tick now s)) + 1"
  by (simp add: tick_def endGame_def)

lemma level_score_event:
  "level (stats s) = score (stats s) + 1 \<Longrightarrow>
   level (stats (apply_event s e)) = score (stats (apply_event s e)) + 1"
  by (cases e) (simp_all add: level_score_startGame level_score_click level_score_tick)

text \<open>
  Claim C10. In every state reached once \<open>startGame\<close> has been called, \<open>level = score + 1\<close>:
  \<open>startGame\<close> sets score 0 and level 1, a correct pick adds 1 to both, and a wrong pick, a
  clock tick and \<open>endGame\<close> change neither.
\<close>

theorem level_is_score_plus_one:
  assumes "started s"
  shows "level (stats s) = score (stats s) + 1
       \<and> level (stats (endGame now s)) = score (stats (endGame now s)) + 1"
proof -
  from assms have "level (stats s) = score (stats s) + 1"
  proof (induction rule: started.induct)
    case (first now d es)
    show ?case by (rule level_score_startGame)
  next
    case (step s e)
    from step.IH show ?case by (rule level_score_event)
  qed
  then show ?thesis
    by (simp add: level_score_endGame)
qed

theorem level_is_score_plus_one_witness:
  "level (stats (apply_event (startGame 1000 low_draws (run [])) (BlockClick 0 high_draws))) = 2
   \<and> score (stats (apply_event (startGame 1000 low_draws (run [])) (BlockClick 0 high_draws))) = 1"
proof -
  let ?s = "apply_event (startGame 1000 low_draws (run [])) (BlockClick 0 high_draws)"
  have h: "started ?s"
    by (intro started.step started.first)
  have "startGame 1000 low_draws (run []) = run [StartGame 1000 low_draws]"
    by (simp add: run_def)
  then have "score (stats ?s) = 1"
    by (simp add: run_first_level handleBlockClick_def Let_def generateLevel_frame)
  then show ?thesis
    using level_is_score_plus_one [OF h, of 0] by simp
qed

section \<open>Colours and the target tile\<close>

lemma sample_draws_valid: "valid_draws low_draws" "valid_draws high_draws" "valid_draws top_draws"
  by (simp_all add: valid_draws_def unit_draw_def low_draws_def high_draws_def top_draws_def
      fl_99) (simp_all add: fl_code)

lemma colorState_generateLevel:
  "colorState (generateLevel lv d s) =
     Some \<lparr> baseColor = \<lparr> hue = \<lfloor>fl (rHue d * 360)\<rfloor>, saturation = \<lfloor>fl (rSat d * 40)\<rfloor> + 60,
                            lightness = real_of_int (\<lfloor>fl (rLight d * 40)\<rfloor> + 30) \<rparr>,
            diffColor = \<lparr> hue = \<lfloor>fl (rHue d * 360)\<rfloor>, saturation = \<lfloor>fl (rSat d * 40)\<rfloor> + 60,
                            lightness = min 100 (max 0 (fl (real_of_int (\<lfloor>fl (rLight d * 40)\<rfloor> + 30)
                              + (if rDir d > 0.5 then baseDelta lv else - baseDelta lv)))) \<rparr>,
            diffIndex = \<lfloor>fl (rIdx d * real_of_int (gridSize s * gridSize s))\<rfloor>,
            delta = baseDelta lv \<rparr>"
  by (simp add: generateLevel_def Let_def)

text \<open>
  What does hold of the colours of every level: the hue is in \<open>[0, 360)\<close>, the saturation in
  \<open>[60, 99]\<close>, the lightness in \<open>[30, 69]\<close>, and the target differs in lightness only.
\<close>

lemma level_colours_bounds:
  assumes "valid_draws d"
  shows "\<exists>cs. colorState (generateLevel lv d s) = Some cs
     \<and> 0 \<le> hue (baseColor cs) \<and> hue (baseColor cs) < 360
     \<and> 60 \<le> saturation (baseColor cs) \<and> saturation (baseColor cs) \<le> 99
     \<and> (\<exists>n. lightness (baseColor cs) = real_of_int n \<and> 30 \<le> n \<and> n \<le> 69)
     \<and> hue (diffColor cs) = hue (baseColor cs)
     \<and> saturation (diffColor cs) = saturation (baseColor cs)
     \<and> lightness (diffColor cs)
         = min 100 (max 0 (fl (lightness (baseColor cs)
             + (if rDir d > 0.5 then baseDelta lv else - baseDelta lv))))"
proof -
  from assms have "unit_draw (rHue d)" "unit_draw (rSat d)" "unit_draw (rLight d)"
    by (simp_all add: valid_draws_def)
  then have h: "0 \<le> \<lfloor>fl (rHue d * 360)\<rfloor> \<and> \<lfloor>fl (rHue d * 360)\<rfloor> < 360"
    and sa: "0 \<le> \<lfloor>fl (rSat d * 40)\<rfloor> \<and> \<lfloor>fl (rSat d * 40)\<rfloor> < 40"
    and l: "0 \<le> \<lfloor>fl (rLight d * 40)\<rfloor> \<and> \<lfloor>fl (rLight d * 40)\<rfloor> < 40"
    by (simp_all only: floor_draw_360 floor_draw_40)
  have n: "\<exists>n. real_of_int (\<lfloor>fl (rLight d * 40)\<rfloor> + 30) = real_of_int n \<and> 30 \<le> n \<and> n \<le> 69"
    using l by (intro exI [of _ "\<lfloor>fl (rLight d * 40)\<rfloor> + 30"]) simp
  show ?thesis
    unfolding colorState_generateLevel using h sa n by simp
qed

lemma diffIndex_within_previous_grid:
  assumes "valid_draws d" and "5 \<le> gridSize s" and "gridSize s \<le> 9"
  shows "\<exists>cs. colorState (generateLevel lv d s) = Some cs
     \<and> 0 \<le> diffIndex cs \<and> diffIndex cs < gridSize s * gridSize s"
proof -
  from assms(1) have "unit_draw (rIdx d)"
    by (simp add: valid_draws_def)
  then show ?thesis
    unfolding colorState_generateLevel
    using floor_draw_grid [OF _ assms(2,3), of "rIdx d"] by simp
qed

text \<open>
  The target lightness is rounded as well: at level 14, from lightness 30 downwards, it is
  \<open>26.200000000000003\<close>.
\<close>

lemma level_14_target_lightness:
  "map_option (\<lambda>cs. lightness (diffColor cs)) (colorState (generateLevel 14 low_draws initial))
     = Some (1843661097454797 / 70368744177664)"
  by (simp add: colorState_generateLevel low_draws_def baseDelta_table fl_zero)
    (simp add: fl_code)

text \<open>
  Claim C3 says that the saturation is uniform in \<open>[60, 100]\<close> and the lightness in
  \<open>[30, 70]\<close>, the ranges that the comments of the source give (\<open>60-100%\<close>, \<open>30-70%\<close>).
  The code scales the draw by 40 and floors it, which is at most 39: with the largest draw
  there is, \<open>1 - 2^-53\<close>, the saturation is 99 and the lightness 69, and no draw produces
  saturation 100 or lightness 70.
\<close>

theorem saturation_stops_at_99:
  "valid_draws top_draws
   \<and> (\<exists>cs. colorState (generateLevel 1 top_draws initial) = Some cs
        \<and> saturation (baseColor cs) = 99 \<and> lightness (baseColor cs) = 69)
   \<and> \<not> (\<exists>d lv s cs. valid_draws d \<and> colorState (generateLevel lv d s) = Some cs
        \<and> saturation (baseColor cs) = 100)
   \<and> \<not> (\<exists>d lv s cs. valid_draws d \<and> colorState (generateLevel lv d s) = Some cs
        \<and> lightness (baseColor cs) = 70)"
proof -
  have top: "\<exists>cs. colorState (generateLevel 1 top_draws initial) = Some cs
        \<and> saturation (baseColor cs) = 99 \<and> lightness (baseColor cs) = 69"
    by (simp add: colorState_generateLevel top_draws_def) (simp add: fl_code)
  have "saturation (baseColor cs) \<noteq> 100 \<and> lightness (baseColor cs) \<noteq> 70"
    if "valid_draws d" "colorState (generateLevel lv d s) = Some cs" for d lv s cs
    using level_colours_bounds [OF that(1), of lv s] that(2) by auto
  with top sample_draws_valid(3) show ?thesis
    by blast
qed

text \<open>
  Claim C1 says that for every generated level the target index lies in
  \<open>[0, gridSize * gridSize)\<close> for that level's grid size, that every index of the range is
  possible, and that exactly one rendered tile shows the target colour. The code draws the
  index over the grid of the render the callback was created in
  (\<open>diffIndex_within_previous_grid\<close>), not over \<open>newGridSize\<close>. After a game that reached
  the 6 by 6 grid, a restart generates level 1 with a 5 by 5 grid and, for the index draw
  0.99, target index 35: none of the 25 tiles shows the target colour.
\<close>

theorem restart_target_outside_grid:
  "gameState (run (level6_game @ [StartGame 3000 high_draws])) = Playing
   \<and> gridSize (run (level6_game @ [StartGame 3000 high_draws])) = 5
   \<and> length (tiles (run (level6_game @ [StartGame 3000 high_draws]))) = 25
   \<and> (\<exists>cs. colorState (run (level6_game @ [StartGame 3000 high_draws])) = Some cs
        \<and> diffIndex cs = 35
        \<and> diffColor cs \<notin> set (tiles (run (level6_game @ [StartGame 3000 high_draws]))))"
proof -
  have "run (level6_game @ [StartGame 3000 high_draws])
          = startGame 3000 high_draws (run level6_game)"
    by (simp add: run_def)
  also have "\<dots> = \<lparr> gameState = Playing,
       colorState = Some \<lparr> baseColor = \<lparr> hue = 180, saturation = 80, lightness = 50 \<rparr>,
                           diffColor = \<lparr> hue = 180, saturation = 80,
                                         lightness = 4517673376206029 / 70368744177664 \<rparr>,
                           diffIndex = 35, delta = 3996944669291315 / 281474976710656 \<rparr>,
       stats = \<lparr> score = 0, startTime = 3000, endTime = 0, level = 1 \<rparr>,
       timeLeft = 45, gridSize = 5 \<rparr>"
    by (simp add: run_level6_game startGame_def generateLevel_def high_draws_def fl_99
        baseDelta_table newGridSize_table Let_def)
      (simp add: fl_code)
  finally show ?thesis
    by (auto simp add: tiles_def)
qed

text \<open>
  Claim C2 says that \<open>generateLevel\<close> is a function of the level and the random draws alone,
  whatever the session state before. The grid size, both colours and \<open>delta\<close> are, but
  \<open>diffIndex\<close> is scaled by the grid size of the state before: level 1 with the same draws
  has target index 24 in a fresh session and 35 after a game that ended on the 6 by 6 grid.
\<close>

theorem generateLevel_reads_previous_grid:
  "gridSize (generateLevel 1 high_draws initial)
     = gridSize (generateLevel 1 high_draws (run level6_game))
   \<and> map_option diffIndex (colorState (generateLevel 1 high_draws initial)) = Some 24
   \<and> map_option diffIndex (colorState (generateLevel 1 high_draws (run level6_game))) = Some 35"
  by (simp add: gridSize_generateLevel colorState_generateLevel run_level6_game initial_def
      high_draws_def fl_99) (simp add: fl_code)

end
